theory Spec2Isabelle
  imports Complex_Main "HOL-Library.Sublist" "HOL-Library.Multiset"
begin

text \<open>
  A shallow embedding of the question-answering pipeline of the repository: the recovery
  parser and the answer generator of \<open>handler/generator.py\<close>, the query enhancer of
  \<open>handler/query_enhancer.py\<close>, the retriever of \<open>handler/retriever.py\<close> and the
  orchestrator of \<open>handler/run.py\<close>. The text-generation models, the embedder and the
  vector index are outside the repository: each run takes what they return, or the
  exception they raise, as an input, and so it takes \<open>json.loads\<close>. A function of the
  source that raises returns \<open>Inl\<close> of the exception here; a function whose calls to a
  collaborator matter returns the list of these calls beside its result.
\<close>

section \<open>Values shared by the pipeline\<close>

text \<open>
  Python exceptions are values. \<open>str_exn\<close> is Python's \<open>str(e)\<close>: the message of the
  exception, the quoted key for a \<open>KeyError\<close>, the empty string for the argument-less
  \<open>TimeoutError\<close> that \<open>Future.result\<close> raises.
\<close>

datatype exn =
    ValueError string
  | JSONDecodeError string
  | KeyError string
  | TypeError string
  | ValidationError string
  | TimeoutError
  | Exception string

fun str_exn :: "exn \<Rightarrow> string" where
  "str_exn (ValueError m) = m"
| "str_exn (JSONDecodeError m) = m"
| "str_exn (KeyError k) = [CHR 0x27] @ k @ [CHR 0x27]"
| "str_exn (TypeError m) = m"
| "str_exn (ValidationError m) = m"
| "str_exn TimeoutError = []"
| "str_exn (Exception m) = m"

text \<open>
  The values \<open>json.loads\<close> produces, and the dictionaries the code builds by hand. An
  object is the list of its items in insertion order; its keys are distinct, as those of
  a Python dictionary are.
\<close>

datatype json =
    JNull
  | JBool bool
  | JNumber real
  | JString string
  | JArray "json list"
  | JObject "(string \<times> json) list"

section \<open>Text repairs of \<open>handler/generator.py\<close>\<close>

text \<open>
  Strings are lists of 8-bit characters; the whitespace of \<open>str.strip\<close> and of the
  regular expression class \<open>\s\<close> is the ASCII part of Python's: tab, line feed, vertical
  tab, form feed, carriage return, the four separators \<open>0x1C\<close> to \<open>0x1F\<close>, and space.
\<close>

definition isspace :: "char \<Rightarrow> bool" where
  "isspace c \<longleftrightarrow>
     c \<in> set [CHR 0x09, CHR 0x0A, CHR 0x0B, CHR 0x0C, CHR 0x0D,
               CHR 0x1C, CHR 0x1D, CHR 0x1E, CHR 0x1F, CHR 0x20]"

definition strip :: "string \<Rightarrow> string" where
  "strip s = rev (dropWhile isspace (rev (dropWhile isspace s)))"

text \<open>
  \<^verbatim>\<open>re.sub(r"```json\n?|\n```", "", text)\<close>: scanning from the left, an opening fence
  with the line feed that may follow it, or a line feed followed by three backquotes, is
  dropped; any other character is kept.
\<close>

definition fence_open :: string where
  "fence_open = ''```json''"

definition fence_close :: string where
  "fence_close = CHR 0x0A # ''```''"

function sub_code_fences :: "string \<Rightarrow> string" where
  "sub_code_fences [] = []"
| "sub_code_fences (c # cs) =
     (if prefix fence_open (c # cs) then
        (if prefix [CHR 0x0A] (drop 7 (c # cs)) then sub_code_fences (drop 8 (c # cs))
         else sub_code_fences (drop 7 (c # cs)))
      else if prefix fence_close (c # cs) then sub_code_fences (drop 4 (c # cs))
      else c # sub_code_fences cs)"
  by pat_completeness auto
termination
  by (relation "measure length") auto

text \<open>
  \<^verbatim>\<open>re.search(r'\{.*\}', text, re.DOTALL)\<close>: the match starts at the first opening
  brace and, the star being greedy and the dot matching every character, ends at the
  last closing brace behind it; there is no match when no closing brace follows the
  first opening one.
\<close>

definition search_json_block :: "string \<Rightarrow> string option" where
  "search_json_block text =
     (let t = dropWhile (\<lambda>c. c \<noteq> CHR ''{'') text;
          m = rev (dropWhile (\<lambda>c. c \<noteq> CHR ''}'') (rev t))
      in if m = [] then None else Some m)"

text \<open>
  \<^verbatim>\<open>re.sub(r'\\(?!["\\/bfnrtu])', '', json_str)\<close>: a backslash is dropped unless the
  character after it is one of the nine listed; a backslash at the very end is dropped.
\<close>

definition escape_chars :: "char list" where
  "escape_chars = [CHR 0x22, CHR 0x5C, CHR ''/'', CHR ''b'', CHR ''f'', CHR ''n'',
                   CHR ''r'', CHR ''t'', CHR ''u'']"

fun sub_invalid_backslashes :: "string \<Rightarrow> string" where
  "sub_invalid_backslashes [] = []"
| "sub_invalid_backslashes (c # cs) =
     (if c = CHR 0x5C \<and> (case cs of [] \<Rightarrow> True | d # _ \<Rightarrow> d \<notin> set escape_chars)
      then sub_invalid_backslashes cs
      else c # sub_invalid_backslashes cs)"

text \<open>\<^verbatim>\<open>json_str.replace('\n', ' ')\<close>\<close>

definition replace_newlines :: "string \<Rightarrow> string" where
  "replace_newlines s = map (\<lambda>c. if c = CHR 0x0A then CHR 0x20 else c) s"

text \<open>
  \<^verbatim>\<open>re.sub(r',\s*([\}\]])', r'\1', json_str)\<close>: a comma, the whitespace after it and a
  closing brace or bracket are replaced by the brace or bracket; the scan goes on behind
  it. A comma that is followed by anything else is kept.
\<close>

function sub_trailing_commas :: "string \<Rightarrow> string" where
  "sub_trailing_commas [] = []"
| "sub_trailing_commas (c # cs) =
     (if c = CHR '','' then
        (case dropWhile isspace cs of
           [] \<Rightarrow> c # sub_trailing_commas cs
         | d # ds \<Rightarrow>
             if d = CHR ''}'' \<or> d = CHR '']'' then d # sub_trailing_commas ds
             else c # sub_trailing_commas cs)
      else c # sub_trailing_commas cs)"
  by pat_completeness auto
termination
proof (relation "measure length")
  fix c :: char and cs ds :: string and d :: char
  assume "dropWhile isspace cs = d # ds"
  then have "Suc (length ds) = length (dropWhile isspace cs)" by simp
  also have "\<dots> \<le> length cs" by (rule length_dropWhile_le)
  finally show "(ds, c # cs) \<in> measure length" by simp
qed auto

text \<open>
  \<open>GeneratorAgent._extract_json\<close>. \<open>json.loads\<close> is the standard library's parser: the
  model takes it as the parameter \<open>loads\<close>, an exception it raises being re-raised.
\<close>

definition generator_extract_json :: "(string \<Rightarrow> exn + json) \<Rightarrow> string \<Rightarrow> exn + json" where
  "generator_extract_json loads text =
     (let text = sub_code_fences (strip text) in
      case search_json_block text of
        None \<Rightarrow> Inl (ValueError ''No valid JSON object found in LLM response.'')
      | Some json_str \<Rightarrow>
          (let json_str = sub_invalid_backslashes json_str;
               json_str = replace_newlines json_str;
               json_str = sub_trailing_commas json_str
           in loads json_str))"

text \<open>
  A finite excerpt of \<open>json.loads\<close>, for running the model on concrete texts: each listed
  text parses to the value beside it, and every other text is rejected.
\<close>

definition loads_table :: "(string \<times> json) list \<Rightarrow> string \<Rightarrow> exn + json" where
  "loads_table table s =
     (case map_of table s of
        Some v \<Rightarrow> Inr v
      | None \<Rightarrow> Inl (JSONDecodeError ''Expecting value''))"

definition is_brace :: "char \<Rightarrow> bool" where
  "is_brace c \<longleftrightarrow> c = CHR ''{'' \<or> c = CHR ''}''"

section \<open>Data of the pipeline\<close>

text \<open>
  \<open>EnhancedQuery\<close>, the pydantic model of \<open>handler/query_enhancer.py\<close>. Its field
  \<^verbatim>\<open>keywords\<close> is \<open>keywords_opt\<close> here, the plain name being reserved.
\<close>

record EnhancedQuery =
  intent :: string
  entities :: "string list"
  keywords_opt :: "string list option"
  conditions :: "string list option"
  raw_query :: string

text \<open>
  What the embedder returns for one text (\<open>dense_vecs[0]\<close> and \<open>lexical_weights[0]\<close>, the
  latter as the items of the dictionary from term index to weight), the sparse vector
  sent to the index, and the arguments of one \<open>index.query\<close> call.
\<close>

record embedding =
  dense_vecs :: "real list"
  lexical_weights :: "(int \<times> real) list"

record sparse_vector =
  sparse_indices :: "int list"
  sparse_values :: "real list"

record index_call =
  call_vector :: "real list"
  call_sparse_vector :: sparse_vector
  call_top_k :: int

text \<open>
  A match of the index response is read with \<open>res.get("id")\<close>, \<open>res.get("score", 0.0)\<close>
  and \<open>res["metadata"]\<close>: each of the three keys may be missing. The metadata is read
  with \<open>get\<close> and a default for each of its three keys.
\<close>

record metadata =
  text_content :: "string option"
  document_name :: "string option"
  section_hierarchy :: "string list option"

record match =
  match_id :: "string option"
  match_score :: "real option"
  match_metadata :: "metadata option"

record chunk =
  score :: real
  metadata :: metadata

text \<open>
  The collaborators of one question's run, as the values they return or the exceptions
  they raise: the construction of the three agents (\<open>None\<close> when all three constructors
  return), the two text-generation models, the embedder, the vector index, and the
  library functions \<open>json.loads\<close> and \<open>str\<close> on values that are not strings.
\<close>

record capabilities =
  agents_init :: "exn option"
  enhancer_generate_content :: "string \<Rightarrow> exn + string"
  encode :: "string \<Rightarrow> exn + embedding"
  index_query :: "index_call \<Rightarrow> exn + match list"
  generator_generate_content :: "string \<Rightarrow> exn + string"
  json_loads :: "string \<Rightarrow> exn + json"
  py_repr :: "json \<Rightarrow> string"

section \<open>Query enhancer (\<open>handler/query_enhancer.py\<close>)\<close>

text \<open>\<open>QueryEnhancerAgent._extract_json\<close>\<close>

definition enhancer_extract_json :: "(string \<Rightarrow> exn + json) \<Rightarrow> string \<Rightarrow> exn + json" where
  "enhancer_extract_json loads text =
     (case search_json_block text of
        None \<Rightarrow> Inl (ValueError ''No JSON object found in the response string.'')
      | Some json_str \<Rightarrow> loads (sub_trailing_commas json_str))"

text \<open>
  \<open>EnhancedQuery(**response_data)\<close>, as pydantic validates the declared fields of the
  class: the argument has to be a dictionary; \<open>intent\<close> and
  \<open>raw_query\<close> have to be strings and \<open>entities\<close> a list of strings; \<open>keywords\<close> and
  \<open>conditions\<close> are a list of strings, null or missing; other keys are ignored.
\<close>

fun as_str :: "json \<Rightarrow> string option" where
  "as_str (JString s) = Some s"
| "as_str _ = None"

fun as_str_list :: "json \<Rightarrow> string list option" where
  "as_str_list (JArray xs) = those (map as_str xs)"
| "as_str_list _ = None"

definition required_str :: "(string \<times> json) list \<Rightarrow> string \<Rightarrow> string option" where
  "required_str items k = (case map_of items k of None \<Rightarrow> None | Some v \<Rightarrow> as_str v)"

definition required_str_list :: "(string \<times> json) list \<Rightarrow> string \<Rightarrow> string list option" where
  "required_str_list items k = (case map_of items k of None \<Rightarrow> None | Some v \<Rightarrow> as_str_list v)"

definition optional_str_list ::
  "(string \<times> json) list \<Rightarrow> string \<Rightarrow> string list option option" where
  "optional_str_list items k =
     (case map_of items k of
        None \<Rightarrow> Some None
      | Some JNull \<Rightarrow> Some None
      | Some v \<Rightarrow> (case as_str_list v of None \<Rightarrow> None | Some xs \<Rightarrow> Some (Some xs)))"

definition EnhancedQuery_init :: "json \<Rightarrow> exn + EnhancedQuery" where
  "EnhancedQuery_init response_data =
     (case response_data of
        JObject items \<Rightarrow>
          (case (required_str items ''intent'', required_str_list items ''entities'',
                 optional_str_list items ''keywords'', optional_str_list items ''conditions'',
                 required_str items ''raw_query'') of
             (Some i, Some e, Some k, Some c, Some r) \<Rightarrow>
               Inr \<lparr>intent = i, entities = e, keywords_opt = k, conditions = c, raw_query = r\<rparr>
           | _ \<Rightarrow> Inl (ValidationError ''validation error for EnhancedQuery''))
      | _ \<Rightarrow> Inl (TypeError ''argument after ** must be a mapping''))"

text \<open>The prompt of \<open>enhance_query\<close>: the text before and after the query.\<close>

definition enhancer_prompt_head :: string where
  \<open>enhancer_prompt_head =
     ''\<newline>'' @
     ''        You are an expert AI assistant for parsing insurance queries. Convert the user'' @ [CHR 0x27] @ ''s query into a structured JSON object.\<newline>'' @
     ''        Analyze to extract intent, entities, keywords, and conditions.\<newline>'' @
     ''        Respond ONLY with a valid JSON object.\<newline>'' @
     ''\<newline>'' @
     ''        **Schema:**\<newline>'' @
     ''        {\<newline>'' @
     ''          "intent": "The user'' @ [CHR 0x27] @ ''s goal (e.g., '' @ [CHR 0x27] @ ''coverage_check'' @ [CHR 0x27] @ '', '' @ [CHR 0x27] @ ''waiting_period'' @ [CHR 0x27] @ '', '' @ [CHR 0x27] @ ''definition'' @ [CHR 0x27] @ '', '' @ [CHR 0x27] @ ''exclusion_check'' @ [CHR 0x27] @ '').",\<newline>'' @
     ''          "entities": ["Main subjects of the query."],\<newline>'' @
     ''          "keywords": ["Other important terms."],\<newline>'' @
     ''          "conditions": ["Specific conditions mentioned."],\<newline>'' @
     ''          "raw_query": "The original user query."\<newline>'' @
     ''        }\<newline>'' @
     ''\<newline>'' @
     ''        **Examples:**\<newline>'' @
     ''\<newline>'' @
     ''        1. Query: "Does this policy cover knee surgery, and what are the conditions?"\<newline>'' @
     ''           JSON: {"intent": "coverage_check", "entities": ["knee surgery"], "keywords": null, "conditions": ["conditions"], "raw_query": "Does this policy cover knee surgery, and what are the conditions?"}\<newline>'' @
     ''\<newline>'' @
     ''        2. Query: "What is the waiting period for pre-existing diseases (PED) to be covered?"\<newline>'' @
     ''           JSON: {"intent": "waiting_period", "entities": ["pre-existing diseases"], "keywords": ["PED"], "conditions": null, "raw_query": "What is the waiting period for pre-existing diseases (PED) to be covered?"}\<newline>'' @
     ''\<newline>'' @
     ''        3. Query: "How does the policy define a '' @ [CHR 0x27] @ ''Hospital'' @ [CHR 0x27] @ ''?"\<newline>'' @
     ''           JSON: {"intent": "definition", "entities": ["Hospital"], "keywords": null, "conditions": null, "raw_query": "How does the policy define a '' @ [CHR 0x27] @ ''Hospital'' @ [CHR 0x27] @ ''?"}\<newline>'' @
     ''\<newline>'' @
     ''        4. Query: "Are there any sub-limits on room rent and ICU charges for Plan A?"\<newline>'' @
     ''           JSON: {"intent": "coverage_check", "entities": ["room rent", "ICU charges"], "keywords": ["sub-limits"], "conditions": ["Plan A"], "raw_query": "Are there any sub-limits on room rent and ICU charges for Plan A?"}\<newline>'' @
     ''        \<newline>'' @
     ''        **User Query to Process:**\<newline>'' @
     ''        Query: "''\<close>

definition enhancer_prompt_tail :: string where
  \<open>enhancer_prompt_tail =
     ''"\<newline>'' @
     ''        JSON:\<newline>'' @
     ''        ''\<close>

text \<open>
  \<open>QueryEnhancerAgent.enhance_query\<close>. The \<open>try\<close> block is \<open>enhance_attempt\<close>; any
  exception of it leads to the fallback value, \<open>fallback_query\<close>.
\<close>

definition enhance_attempt :: "capabilities \<Rightarrow> string \<Rightarrow> exn + EnhancedQuery" where
  "enhance_attempt caps query =
     (let prompt = enhancer_prompt_head @ query @ enhancer_prompt_tail in
      case enhancer_generate_content caps prompt of
        Inl e \<Rightarrow> Inl e
      | Inr response_text \<Rightarrow>
          (case enhancer_extract_json (json_loads caps) response_text of
             Inl e \<Rightarrow> Inl e
           | Inr response_data \<Rightarrow> EnhancedQuery_init response_data))"

definition fallback_query :: "string \<Rightarrow> EnhancedQuery" where
  "fallback_query query =
     \<lparr>intent = ''general_query'', entities = [query], keywords_opt = None,
      conditions = None, raw_query = query\<rparr>"

definition enhance_query :: "capabilities \<Rightarrow> string \<Rightarrow> EnhancedQuery" where
  "enhance_query caps query =
     (case enhance_attempt caps query of
        Inr enhanced \<Rightarrow> enhanced
      | Inl e \<Rightarrow> fallback_query query)"

section \<open>Hybrid retriever (\<open>handler/retriever.py\<close>)\<close>

text \<open>
  \<open>hybrid_score_norm\<close>. The weight \<open>alpha\<close> and the vector entries are Python floats; the
  model reads them as real numbers.
\<close>

definition hybrid_score_norm ::
  "real list \<Rightarrow> sparse_vector \<Rightarrow> real \<Rightarrow> exn + (real list \<times> sparse_vector)" where
  "hybrid_score_norm dense sparse alpha =
     (if alpha < 0 \<or> alpha > 1 then Inl (ValueError ''Alpha must be between 0 and 1'')
      else
        (let hs = \<lparr>sparse_indices = sparse_indices sparse,
                   sparse_values = map (\<lambda>v. v * (1 - alpha)) (sparse_values sparse)\<rparr>
         in Inr (map (\<lambda>v. v * alpha) dense, hs)))"

text \<open>\<open>" ".join(...)\<close> and \<open>RetrieverAgent._compose_search_query\<close>\<close>

fun join :: "string \<Rightarrow> string list \<Rightarrow> string" where
  "join sep [] = []"
| "join sep [x] = x"
| "join sep (x # y # ys) = x @ sep @ join sep (y # ys)"

definition compose_search_query :: "EnhancedQuery \<Rightarrow> string" where
  "compose_search_query enhanced_query =
     (let parts = [raw_query enhanced_query] @ entities enhanced_query;
          parts = (case keywords_opt enhanced_query of
                     None \<Rightarrow> parts | Some ks \<Rightarrow> if ks = [] then parts else parts @ ks);
          parts = (case conditions enhanced_query of
                     None \<Rightarrow> parts | Some cs \<Rightarrow> if cs = [] then parts else parts @ cs)
      in join '' '' (filter (\<lambda>part. part \<noteq> []) parts))"

text \<open>
  The deduplication loop of \<open>retrieve_and_rerank\<close>, with its two variables \<open>seen_ids\<close>
  and \<open>unique_results\<close>, and the loop that builds \<open>final_results\<close>, whose body is
  \<open>final_result\<close>; \<open>res["metadata"]\<close> raises \<open>KeyError\<close> on a match without metadata.
\<close>

fun unique_loop ::
  "string option set \<Rightarrow> match list \<Rightarrow> match list \<Rightarrow> match list" where
  "unique_loop seen_ids unique_results [] = unique_results"
| "unique_loop seen_ids unique_results (res # results) =
     (let chunk_id = match_id res in
      if chunk_id \<notin> seen_ids
      then unique_loop (insert chunk_id seen_ids) (unique_results @ [res]) results
      else unique_loop seen_ids unique_results results)"

definition final_result :: "match \<Rightarrow> exn + chunk" where
  "final_result res =
     (case match_metadata res of
        None \<Rightarrow> Inl (KeyError ''metadata'')
      | Some md \<Rightarrow>
          Inr \<lparr>score = (case match_score res of None \<Rightarrow> 0 | Some sc \<Rightarrow> sc),
               metadata = md\<rparr>)"

fun final_loop :: "chunk list \<Rightarrow> match list \<Rightarrow> exn + chunk list" where
  "final_loop final_results [] = Inr final_results"
| "final_loop final_results (res # unique_results) =
     (case final_result res of
        Inl e \<Rightarrow> Inl e
      | Inr c \<Rightarrow> final_loop (final_results @ [c]) unique_results)"

text \<open>
  \<open>RetrieverAgent.retrieve_and_rerank\<close>. The result comes with the list of the queries
  sent to the index. The embedding and \<open>hybrid_score_norm\<close> stand before the \<open>try\<close>
  block, which holds the index query alone.
\<close>

definition retrieve_and_rerank ::
  "capabilities \<Rightarrow> EnhancedQuery \<Rightarrow> int \<Rightarrow> int \<Rightarrow> real \<Rightarrow>
     (exn + chunk list) \<times> index_call list" where
  "retrieve_and_rerank caps enhanced_query top_k_initial top_k_final alpha =
     (let search_query = compose_search_query enhanced_query in
      case encode caps search_query of
        Inl e \<Rightarrow> (Inl e, [])
      | Inr result \<Rightarrow>
          (let dense_emb = dense_vecs result;
               lw = lexical_weights result;
               sparse = \<lparr>sparse_indices = map fst (filter (\<lambda>(idx, val). val \<noteq> 0) lw),
                         sparse_values = map snd (filter (\<lambda>(idx, val). val \<noteq> 0) lw)\<rparr>
           in case hybrid_score_norm dense_emb sparse alpha of
                Inl e \<Rightarrow> (Inl e, [])
              | Inr (hdense, hsparse) \<Rightarrow>
                  (let call = \<lparr>call_vector = hdense, call_sparse_vector = hsparse,
                                call_top_k = top_k_final\<rparr>
                   in case index_query caps call of
                        Inl e \<Rightarrow> (Inr [], [call])
                      | Inr results \<Rightarrow>
                          if results = [] then (Inr [], [call])
                          else (final_loop [] (unique_loop {} [] results), [call]))))"

section \<open>Answer generator (\<open>handler/generator.py\<close>)\<close>

text \<open>Decimal digits of a natural number, for \<open>{i+1}\<close> in the context text.\<close>

function str_nat :: "nat \<Rightarrow> string" where
  "str_nat n =
     (if n < 10 then [char_of (48 + n)]
      else str_nat (n div 10) @ [char_of (48 + n mod 10)])"
  by pat_completeness auto
termination
  by (relation "measure id") auto

text \<open>The loop of \<open>generate_answer\<close> that renders the chunks, \<open>i\<close> counting from 0.\<close>

fun context_loop :: "nat \<Rightarrow> chunk list \<Rightarrow> string" where
  "context_loop i [] = []"
| "context_loop i (chunk # retrieved_chunks) =
     (let md = metadata chunk;
          content = (case text_content md of None \<Rightarrow> ''N/A'' | Some c \<Rightarrow> c);
          document = (case document_name md of None \<Rightarrow> ''Unknown'' | Some d \<Rightarrow> d);
          section_path =
            join '' > '' (case section_hierarchy md of None \<Rightarrow> [''General''] | Some h \<Rightarrow> h)
      in ''--- Context Chunk '' @ str_nat (i + 1) @ '' ---\<newline>'' @
         ''Document: '' @ document @ ''\<newline>'' @
         ''Section: '' @ section_path @ ''\<newline>'' @
         ''Content: '' @ content @ ''\<newline>\<newline>'' @
         context_loop (i + 1) retrieved_chunks)"

text \<open>The prompt of \<open>generate_answer\<close>: the text around the context and the query.\<close>

definition generator_prompt_head :: string where
  \<open>generator_prompt_head =
     ''\<newline>'' @
     ''        You are an expert insurance analyst. Your task is to answer a user'' @ [CHR 0x27] @ ''s query based ONLY on the provided context chunks from policy documents. You MUST respond with a single, strictly valid JSON object. No markdown, no newlines in strings, and no trailing commas.\<newline>'' @
     ''        \<newline>'' @
     ''        **JSON Schema:**\<newline>'' @
     ''        {"decision": "A direct summary of the answer.","amount": "The relevant monetary amount as a number, or null if not applicable.","justification": "A detailed explanation, referencing information from the context.","clauses": [{"content": "Exact clause text.","document": "Source document name.","section": "Full section path."}]}\<newline>'' @
     ''        \<newline>'' @
     ''        ---\<newline>'' @
     ''        **EXAMPLE 1**\<newline>'' @
     ''        \<newline>'' @
     ''        **Context Chunks:**\<newline>'' @
     ''        --- Context Chunk 1 ---\<newline>'' @
     ''        Document: National Parivar Mediclaim Plus Policy.md\<newline>'' @
     ''        Section: 4 EXCLUSIONS > 4.1. Pre-Existing Diseases (Excl 01)\<newline>'' @
     ''        Content: a) Expenses related to the treatment of a Pre-Existing Disease (PED) and its direct complications shall be excluded until the expiry of thirty six (36) months of continuous coverage after the date of inception of the first policy with us.\<newline>'' @
     ''        \<newline>'' @
     ''        **User Query:** What is the waiting period for pre-existing diseases (PED) to be covered?\<newline>'' @
     ''        \<newline>'' @
     ''        **JSON Answer:**\<newline>'' @
     ''        {"decision": "There is a waiting period of thirty-six (36) months of continuous coverage from the first policy inception for pre-existing diseases and their direct complications to be covered.","amount": null,"justification": "The policy explicitly states under Section 4.1 that expenses for Pre-Existing Diseases (PED) and their complications are excluded until a 36-month period of continuous coverage has passed.","clauses": [{"content": "Expenses related to the treatment of a Pre-Existing Disease (PED) and its direct complications shall be excluded until the expiry of thirty six (36) months of continuous coverage after the date of inception of the first policy with us.","document": "National Parivar Mediclaim Plus Policy.md","section": "4 EXCLUSIONS > 4.1. Pre-Existing Diseases (Excl 01)"}]}\<newline>'' @
     ''        \<newline>'' @
     ''        ---\<newline>'' @
     ''        **EXAMPLE 2**\<newline>'' @
     ''        \<newline>'' @
     ''        **Context Chunks:**\<newline>'' @
     ''        --- Context Chunk 1 ---\<newline>'' @
     ''        Document: National Parivar Mediclaim Plus Policy.md\<newline>'' @
     ''        Section: 3 BENEFITS COVERED UNDER THE POLICY > 3.1.14 Maternity\<newline>'' @
     ''        Content: The Company shall indemnify Maternity Expenses as described below for any female Insured Person, and also Pre-Natal and Post-Natal Hospitalisation expenses per delivery, including expenses for necessary vaccination for New Born Baby, subject to the limit as shown in the Table of Benefits. The female Insured Person should have been continuously covered for at least 24 months before availing this benefit.\<newline>'' @
     ''        --- Context Chunk 2 ---\<newline>'' @
     ''        Document: National Parivar Mediclaim Plus Policy.md\<newline>'' @
     ''        Section: 4 EXCLUSIONS > 4.2.f.iii. Two years waiting period\<newline>'' @
     ''        Content: Hysterectomy, Cataract...\<newline>'' @
     ''        \<newline>'' @
     ''        **User Query:** Does this policy cover maternity expenses, and what are the conditions?\<newline>'' @
     ''        \<newline>'' @
     ''        **JSON Answer:**\<newline>'' @
     ''        {"decision": "Yes, the policy covers maternity expenses, subject to conditions.","amount": null,"justification": "The policy covers maternity expenses including childbirth and pre/post-natal care. The primary condition for eligibility is that the female insured person must have been continuously covered under the policy for at least 24 months.","clauses": [{"content": "The Company shall indemnify Maternity Expenses as described below for any female Insured Person... The female Insured Person should have been continuously covered for at least 24 months before availing this benefit.","document": "National Parivar Mediclaim Plus Policy.md","section": "3 BENEFITS COVERED UNDER THE POLICY > 3.1.14 Maternity"}]}\<newline>'' @
     ''        \<newline>'' @
     ''        ---\<newline>'' @
     ''        **ACTUAL TASK**\<newline>'' @
     ''        \<newline>'' @
     ''        **Context Chunks:**\<newline>'' @
     ''        ''\<close>

definition generator_prompt_mid :: string where
  \<open>generator_prompt_mid =
     ''\<newline>'' @
     ''        **User Query:** ''\<close>

definition generator_prompt_tail :: string where
  \<open>generator_prompt_tail =
     ''\<newline>'' @
     ''        \<newline>'' @
     ''        **JSON Answer:**\<newline>'' @
     ''        ''\<close>

text \<open>The two fixed answers of \<open>generate_answer\<close>.\<close>

definition not_found_answer :: json where
  "not_found_answer =
     JObject [(''decision'', JString ''Not Found''),
              (''amount'', JNull),
              (''justification'',
                 JString ''Could not find relevant information in the provided documents.''),
              (''clauses'', JArray [])]"

definition error_answer :: "exn \<Rightarrow> json" where
  "error_answer e =
     JObject [(''decision'', JString ''Error''),
              (''amount'', JNull),
              (''justification'',
                 JString (''Failed to generate a valid response: '' @ str_exn e)),
              (''clauses'', JArray [])]"

text \<open>
  \<open>GeneratorAgent.generate_answer\<close>: the prompt made of the chunks and the query, the
  \<open>try\<close> block (\<open>generate_attempt\<close>), and the function. The result comes with the list of
  the prompts sent to the text-generation model.
\<close>

definition generator_prompt :: "string \<Rightarrow> chunk list \<Rightarrow> string" where
  "generator_prompt raw_query' retrieved_chunks =
     (let context = context_loop 0 retrieved_chunks
      in generator_prompt_head @ context @ generator_prompt_mid @ raw_query' @
         generator_prompt_tail)"

definition generate_attempt :: "capabilities \<Rightarrow> string \<Rightarrow> exn + json" where
  "generate_attempt caps prompt =
     (case generator_generate_content caps prompt of
        Inl e \<Rightarrow> Inl e
      | Inr response_text \<Rightarrow> generator_extract_json (json_loads caps) response_text)"

definition generate_answer ::
  "capabilities \<Rightarrow> string \<Rightarrow> chunk list \<Rightarrow> json \<times> string list" where
  "generate_answer caps raw_query' retrieved_chunks =
     (if retrieved_chunks = [] then (not_found_answer, [])
      else
        (let prompt = generator_prompt raw_query' retrieved_chunks
         in case generate_attempt caps prompt of
              Inr parsed \<Rightarrow> (parsed, [prompt])
            | Inl e \<Rightarrow> (error_answer e, [prompt])))"

section \<open>Orchestrator (\<open>handler/run.py\<close>)\<close>

text \<open>
  Truth value of a decoded JSON value, and \<open>str\<close> of it: the string itself for a string,
  the library's rendering for any other value.
\<close>

fun truthy :: "json \<Rightarrow> bool" where
  "truthy JNull = False"
| "truthy (JBool b) = b"
| "truthy (JNumber x) = (x \<noteq> 0)"
| "truthy (JString s) = (s \<noteq> [])"
| "truthy (JArray xs) = (xs \<noteq> [])"
| "truthy (JObject kvs) = (kvs \<noteq> [])"

definition py_str :: "(json \<Rightarrow> string) \<Rightarrow> json \<Rightarrow> string" where
  "py_str repr v = (case v of JString s \<Rightarrow> s | _ \<Rightarrow> repr v)"

text \<open>\<open>extract_decision_from_answer\<close>: the loop over the five keys, then the function.\<close>

fun first_key :: "(string \<times> json) list \<Rightarrow> string list \<Rightarrow> json option" where
  "first_key answer [] = None"
| "first_key answer (key # ks) =
     (case map_of answer key of
        Some v \<Rightarrow> if truthy v then Some v else first_key answer ks
      | None \<Rightarrow> first_key answer ks)"

definition extract_decision_from_answer :: "(json \<Rightarrow> string) \<Rightarrow> json \<Rightarrow> string" where
  "extract_decision_from_answer repr answer =
     (case answer of
        JObject kvs \<Rightarrow>
          (case first_key kvs [''decision'', ''answer'', ''response'', ''content'', ''text''] of
             Some v \<Rightarrow> py_str repr v
           | None \<Rightarrow> py_str repr answer)
      | _ \<Rightarrow> py_str repr answer)"

text \<open>
  The dictionary a question's run returns: the success form and the error form, told
  apart by the key \<open>status\<close>. The selectors bear the names of the keys; a local variable
  of the source with the name of a key is written with a prime.
\<close>

datatype question_result =
    Success (question: string) (enhanced: EnhancedQuery) (chunks: "chunk list")
            (answer: json) (generated_answer: string)
  | Failure (question: string) (error: string)

fun status :: "question_result \<Rightarrow> string" where
  "status (Success q e c a g) = ''success''"
| "status (Failure q m) = ''error''"

text \<open>
  \<open>process_single_question\<close>. The three constructors stand before the \<open>try\<close> block: an
  exception of theirs leaves the function (\<open>Inl\<close>). Inside the block an exception becomes
  an error result. The retriever is called with its default arguments.
\<close>

definition process_single_question :: "capabilities \<Rightarrow> string \<Rightarrow> exn + question_result" where
  "process_single_question caps user_query =
     (case agents_init caps of
        Some e \<Rightarrow> Inl e
      | None \<Rightarrow>
          (let enhanced' = enhance_query caps user_query in
           case fst (retrieve_and_rerank caps enhanced' 35 5 (1 / 2)) of
             Inl e \<Rightarrow> Inr (Failure user_query (str_exn e))
           | Inr chunks' \<Rightarrow>
               (let answer' = fst (generate_answer caps user_query chunks');
                    generated_answer' = extract_decision_from_answer (py_repr caps) answer'
                in Inr (Success user_query enhanced' chunks' answer' generated_answer'))))"

text \<open>
  One unit of work of the pool: the collaborators it meets and the time at which it
  completes, \<open>None\<close> for a unit that never does. \<open>max_workers\<close> bounds how many units run at
  once; it acts on the completion times only, which are given here.

  A future is the completion time and the outcome of its unit. \<open>future.result(timeout)\<close>,
  called at time \<open>now\<close>, gives the outcome if the future is done by \<open>now + timeout\<close> and
  raises \<open>TimeoutError\<close> otherwise.
\<close>

record unit_run =
  unit_caps :: capabilities
  completes_at :: "nat option"

record future =
  done_at :: "nat option"
  outcome :: "exn + question_result"

definition submit :: "unit_run \<Rightarrow> string \<Rightarrow> future" where
  "submit u question' =
     \<lparr>done_at = completes_at u, outcome = process_single_question (unit_caps u) question'\<rparr>"

definition future_result :: "nat \<Rightarrow> nat \<Rightarrow> future \<Rightarrow> exn + question_result" where
  "future_result now timeout f =
     (case done_at f of
        None \<Rightarrow> Inl TimeoutError
      | Some t \<Rightarrow> if t \<le> now + timeout then outcome f else Inl TimeoutError)"

text \<open>
  \<open>as_completed(future_to_question)\<close>, called without a timeout: it yields every future
  once it is done, in the order of the completion times, each paired here with the time
  of the yield; when a future never completes, the iteration never ends (\<open>None\<close>).
  \<open>future_to_question\<close> is the list of the items of the dictionary.
\<close>

definition as_completed ::
  "(future \<times> string) list \<Rightarrow> (nat \<times> future \<times> string) list option" where
  "as_completed future_to_question =
     (case those (map (\<lambda>(f, q). done_at f) future_to_question) of
        None \<Rightarrow> None
      | Some ts \<Rightarrow> Some (sort_key fst (zip ts future_to_question)))"

text \<open>The body of the collecting loop, for one yielded future.\<close>

definition collect :: "nat \<times> future \<times> string \<Rightarrow> question_result" where
  "collect y =
     (case y of (now, f, question') \<Rightarrow>
        (case future_result now 30 f of
           Inr result \<Rightarrow> result
         | Inl e \<Rightarrow> Failure question' (''Processing failed: '' @ str_exn e)))"

text \<open>\<open>{q: i for i, q in enumerate(questions)}\<close>: a later index replaces an earlier one.\<close>

definition question_to_index :: "string list \<Rightarrow> string \<rightharpoonup> nat" where
  "question_to_index questions =
     fold (\<lambda>(i, q) m. m(q \<mapsto> i)) (enumerate 0 questions) Map.empty"

text \<open>
  \<open>process_questions_parallel\<close>; \<open>units i\<close> is the run of the \<open>i\<close>-th submitted question.
  The result is \<open>None\<close> when the call never returns. \<open>list.sort\<close> is stable, as
  \<open>sort_key\<close> is.
\<close>

definition process_questions_parallel ::
  "string list \<Rightarrow> (nat \<Rightarrow> unit_run) \<Rightarrow> question_result list option" where
  "process_questions_parallel questions units =
     (if questions = [] then Some []
      else
        (let future_to_question =
               map (\<lambda>(i, question'). (submit (units i) question', question'))
                   (enumerate 0 questions)
         in case as_completed future_to_question of
              None \<Rightarrow> None
            | Some yielded \<Rightarrow>
                (let results = map collect yielded;
                     index = question_to_index questions
                 in Some (sort_key
                            (\<lambda>x. case index (question x) of
                                    Some i \<Rightarrow> i
                                  | None \<Rightarrow> length questions)
                            results))))"

section \<open>Concrete inputs\<close>

text \<open>
  A response of the generator model as it comes in practice: a fenced block with a line
  feed inside the object, the invalid escape \<^verbatim>\<open>\.\<close> and a comma before the closing
  brace; then the text the repairs make of it, and the value \<open>json.loads\<close> gives for that
  text.
\<close>

definition messy_pre :: string where
  "messy_pre = ''```json'' @ [CHR 0x0A]"

definition messy_mid :: string where
  \<open>messy_mid = ''"decision": "Yes", "justification": "see 4'' @ [CHR 0x5C] @ ''.1",'' @
     [CHR 0x0A] @ '' "clauses": [],''\<close>

definition messy_post :: string where
  "messy_post = [CHR 0x0A] @ ''```''"

definition messy_cleaned :: string where
  \<open>messy_cleaned = ''{"decision": "Yes", "justification": "see 4.1",  "clauses": []}''\<close>

definition messy_value :: json where
  "messy_value = JObject [(''decision'', JString ''Yes''), (''justification'', JString ''see 4.1''),
                          (''clauses'', JArray [])]"

text \<open>
  A run in which every collaborator answers: the enhancer model returns a JSON object
  whose \<open>raw_query\<close> rewords the question, the embedder a small vector pair, the index
  three matches of which the third repeats the id of the first, the generator model the
  response above.
\<close>

definition reworded_response :: string where
  \<open>reworded_response =
     ''{"intent": "coverage_check", "entities": ["knee surgery"], "raw_query": "Does this policy cover knee surgery?"}''\<close>

definition reworded_value :: json where
  "reworded_value =
     JObject [(''intent'', JString ''coverage_check''),
              (''entities'', JArray [JString ''knee surgery'']),
              (''raw_query'', JString ''Does this policy cover knee surgery?'')]"

definition sample_match :: "string \<Rightarrow> real \<Rightarrow> string \<Rightarrow> match" where
  "sample_match i sc txt =
     \<lparr>match_id = Some i, match_score = Some sc,
      match_metadata = Some \<lparr>text_content = Some txt, document_name = Some ''Policy.md'',
                              section_hierarchy = Some [''4 EXCLUSIONS'', ''4.1'']\<rparr>\<rparr>"

definition sample_matches :: "match list" where
  "sample_matches =
     [sample_match ''c1'' (9 / 10) ''first'', sample_match ''c2'' (8 / 10) ''second'',
      sample_match ''c1'' (7 / 10) ''third'']"

definition sample_embedding :: embedding where
  "sample_embedding = \<lparr>dense_vecs = [1 / 2, 1 / 4], lexical_weights = [(101, 1 / 2), (7, 0)]\<rparr>"

definition sample_caps :: capabilities where
  "sample_caps =
     \<lparr>agents_init = None,
      enhancer_generate_content = (\<lambda>prompt. Inr reworded_response),
      encode = (\<lambda>t. Inr sample_embedding),
      index_query = (\<lambda>call. Inr sample_matches),
      generator_generate_content =
        (\<lambda>prompt. Inr (messy_pre @ CHR ''{'' # messy_mid @ CHR ''}'' # messy_post)),
      json_loads = loads_table [(reworded_response, reworded_value), (messy_cleaned, messy_value)],
      py_repr = (\<lambda>v. [])\<rparr>"


definition sample_chunk :: "real \<Rightarrow> string \<Rightarrow> chunk" where
  "sample_chunk sc txt =
     \<lparr>score = sc,
      metadata = \<lparr>text_content = Some txt, document_name = Some ''Policy.md'',
                   section_hierarchy = Some [''4 EXCLUSIONS'', ''4.1'']\<rparr>\<rparr>"




text \<open>
  Runs of the pool, each unit meeting the collaborators above: one in which a later
  question completes earlier, one in which the first unit takes 100 time units, and one
  in which the first unit never completes.
\<close>

definition swapped_units :: "nat \<Rightarrow> unit_run" where
  "swapped_units i = \<lparr>unit_caps = sample_caps, completes_at = Some (10 - i)\<rparr>"

definition slow_units :: "nat \<Rightarrow> unit_run" where
  "slow_units i = \<lparr>unit_caps = sample_caps, completes_at = Some (if i = 0 then 100 else 1)\<rparr>"

definition hanging_units :: "nat \<Rightarrow> unit_run" where
  "hanging_units i = \<lparr>unit_caps = sample_caps, completes_at = (if i = 0 then None else Some 1)\<rparr>"

section \<open>Properties of the recovery parser\<close>

text \<open>
  Neither \<open>strip\<close> nor the removal of the fences touches a brace: the braces of the
  cleaned text are those of the response, in the same order.
\<close>

lemma brace_not_space: "is_brace c \<Longrightarrow> \<not> isspace c"
  by (auto simp: is_brace_def isspace_def)

lemma filter_dropWhile_neg:
  "(\<And>c. P c \<Longrightarrow> \<not> Q c) \<Longrightarrow> filter P (dropWhile Q xs) = filter P xs"
  by (induction xs) auto

lemma filter_brace_strip: "filter is_brace (strip s) = filter is_brace s"
proof -
  have "filter is_brace (strip s) = rev (filter is_brace (dropWhile isspace (rev (dropWhile isspace s))))"
    by (simp add: strip_def rev_filter)
  also have "\<dots> = rev (filter is_brace (rev (dropWhile isspace s)))"
    by (simp add: filter_dropWhile_neg brace_not_space)
  also have "\<dots> = filter is_brace (dropWhile isspace s)"
    by (simp add: rev_filter)
  also have "\<dots> = filter is_brace s"
    by (simp add: filter_dropWhile_neg brace_not_space)
  finally show ?thesis .
qed

lemma filter_brace_drop_fence_open:
  "prefix fence_open s \<Longrightarrow> filter is_brace (drop 7 s) = filter is_brace s"
  by (auto simp: prefix_def fence_open_def is_brace_def)

lemma filter_brace_drop_fence_close:
  "prefix fence_close s \<Longrightarrow> filter is_brace (drop 4 s) = filter is_brace s"
  by (auto simp: prefix_def fence_close_def is_brace_def)

lemma filter_brace_drop_nl:
  "prefix [CHR 0x0A] (drop 7 s) \<Longrightarrow> filter is_brace (drop 8 s) = filter is_brace (drop 7 s)"
proof -
  assume "prefix [CHR 0x0A] (drop 7 s)"
  then obtain zs where zs: "drop 7 s = CHR 0x0A # zs" by (auto simp: prefix_def)
  have "drop 8 s = drop 1 (drop 7 s)" by simp
  also have "\<dots> = zs" using zs by simp
  finally show ?thesis using zs by (simp add: is_brace_def)
qed

lemma filter_brace_fences: "filter is_brace (sub_code_fences s) = filter is_brace s"
proof (induction s rule: sub_code_fences.induct)
  case 1
  show ?case by simp
next
  case (2 c cs)
  let ?s = "c # cs"
  show ?case
  proof (cases "prefix fence_open ?s")
    case True
    note op = this
    show ?thesis
    proof (cases "prefix [CHR 0x0A] (drop 7 ?s)")
      case True
      have "filter is_brace (sub_code_fences ?s) = filter is_brace (sub_code_fences (drop 8 ?s))"
        using op True by (simp only: sub_code_fences.simps if_True)
      also have "\<dots> = filter is_brace (drop 8 ?s)" using 2(1)[OF op True] .
      also have "\<dots> = filter is_brace (drop 7 ?s)" using True by (rule filter_brace_drop_nl)
      also have "\<dots> = filter is_brace ?s" using op by (rule filter_brace_drop_fence_open)
      finally show ?thesis .
    next
      case False
      have "filter is_brace (sub_code_fences ?s) = filter is_brace (sub_code_fences (drop 7 ?s))"
        using op False by (simp only: sub_code_fences.simps if_True if_False)
      also have "\<dots> = filter is_brace (drop 7 ?s)" using 2(2)[OF op False] .
      also have "\<dots> = filter is_brace ?s" using op by (rule filter_brace_drop_fence_open)
      finally show ?thesis .
    qed
  next
    case False
    note nop = this
    show ?thesis
    proof (cases "prefix fence_close ?s")
      case True
      have "filter is_brace (sub_code_fences ?s) = filter is_brace (sub_code_fences (drop 4 ?s))"
        using nop True by (simp only: sub_code_fences.simps if_True if_False)
      also have "\<dots> = filter is_brace (drop 4 ?s)" using 2(3)[OF nop True] .
      also have "\<dots> = filter is_brace ?s" using True by (rule filter_brace_drop_fence_close)
      finally show ?thesis .
    next
      case False
      have "sub_code_fences ?s = c # sub_code_fences cs"
        using nop False by (simp only: sub_code_fences.simps if_False)
      then show ?thesis using 2(4)[OF nop False] by simp
    qed
  qed
qed

lemma notin_dropWhile: "x \<notin> set xs \<Longrightarrow> x \<notin> set (dropWhile P xs)"
  by (induction xs) auto

lemma dropWhile_neq_absent: "x \<notin> set xs \<Longrightarrow> dropWhile (\<lambda>c. c \<noteq> x) xs = []"
  by (induction xs) auto

lemma search_json_block_None:
  assumes "CHR ''{'' \<notin> set t \<or> CHR ''}'' \<notin> set t"
  shows "search_json_block t = None"
proof -
  let ?u = "dropWhile (\<lambda>c. c \<noteq> CHR ''{'') t"
  have "CHR ''}'' \<notin> set ?u"
  proof (cases "CHR ''{'' \<in> set t")
    case False
    then have "?u = []" by (rule dropWhile_neq_absent)
    then show ?thesis by (simp del: dropWhile_eq_Nil_conv)
  next
    case True
    with assms have "CHR ''}'' \<notin> set t" by simp
    then show ?thesis by (rule notin_dropWhile)
  qed
  then have "CHR ''}'' \<notin> set (rev ?u)" by simp
  then have "dropWhile (\<lambda>c. c \<noteq> CHR ''}'') (rev ?u) = []"
    by (rule dropWhile_neq_absent)
  then show ?thesis by (simp add: search_json_block_def del: dropWhile_eq_Nil_conv)
qed

lemma brace_mem_filter: "is_brace b \<Longrightarrow> b \<in> set s \<longleftrightarrow> b \<in> set (filter is_brace s)"
  by simp

lemma cleaned_braces:
  "is_brace b \<Longrightarrow> b \<in> set (sub_code_fences (strip s)) \<longleftrightarrow> b \<in> set s"
proof -
  assume b: "is_brace b"
  have "b \<in> set (sub_code_fences (strip s)) \<longleftrightarrow> b \<in> set (filter is_brace (sub_code_fences (strip s)))"
    using b by simp
  also have "\<dots> \<longleftrightarrow> b \<in> set (filter is_brace s)"
    by (simp only: filter_brace_fences filter_brace_strip)
  also have "\<dots> \<longleftrightarrow> b \<in> set s" using b by simp
  finally show ?thesis .
qed

text \<open>
  C3. Whenever the text has no opening brace or has no closing brace, the recovery parser
  of the generator raises \<open>ValueError("No valid JSON object found in LLM response.")\<close>,
  whatever \<open>json.loads\<close> would do: no record is returned.
\<close>

theorem extract_json_no_brace:
  assumes "CHR ''{'' \<notin> set text \<or> CHR ''}'' \<notin> set text"
  shows "generator_extract_json loads text =
           Inl (ValueError ''No valid JSON object found in LLM response.'')"
proof -
  have "CHR ''{'' \<notin> set (sub_code_fences (strip text)) \<or>
        CHR ''}'' \<notin> set (sub_code_fences (strip text))"
    using assms by (simp add: cleaned_braces is_brace_def)
  then have "search_json_block (sub_code_fences (strip text)) = None"
    by (rule search_json_block_None)
  then show ?thesis by (simp add: generator_extract_json_def)
qed


theorem extract_json_no_brace_witness:
  "CHR ''{'' \<notin> set ''I cannot answer that.'' \<and>
   generator_extract_json (loads_table []) ''I cannot answer that.'' =
     Inl (ValueError ''No valid JSON object found in LLM response.'')"
  using extract_json_no_brace [of "''I cannot answer that.''" "loads_table []"] by simp












section \<open>Properties of the answer generator\<close>

text \<open>
  C8. For every query, \<open>generate_answer\<close> with no chunk returns the fixed "Not Found"
  object, and the list of the prompts sent to the text-generation model is empty.
\<close>

theorem generate_answer_no_chunks:
  "generate_answer caps raw_query' [] =
     (JObject [(''decision'', JString ''Not Found''),
               (''amount'', JNull),
               (''justification'',
                  JString ''Could not find relevant information in the provided documents.''),
               (''clauses'', JArray [])],
      [])"
  by (simp add: generate_answer_def not_found_answer_def)

section \<open>Properties of the query enhancer\<close>

text \<open>
  The result of \<open>enhance_query\<close> is the validated record when the \<open>try\<close> block succeeds
  and the fallback record otherwise; the fallback record has the question as its
  \<open>raw_query\<close>.
\<close>

lemma enhance_query_success:
  "enhance_attempt caps query = Inr e \<Longrightarrow> enhance_query caps query = e"
  by (simp add: enhance_query_def)


lemma fallback_raw_query: "raw_query (fallback_query query) = query"
  by (simp add: fallback_query_def)

text \<open>
  On the success path \<open>raw_query\<close> is the value of the key \<open>raw_query\<close> of the parsed model
  output, not the question: the evaluation below is the run in which the model rewords
  the question.
\<close>

lemma reworded_extract:
  "enhancer_extract_json (loads_table [(reworded_response, reworded_value), (messy_cleaned, messy_value)])
     reworded_response = Inr reworded_value"
  by code_simp

lemma reworded_init:
  "EnhancedQuery_init reworded_value =
     Inr \<lparr>intent = ''coverage_check'', entities = [''knee surgery''], keywords_opt = None,
          conditions = None, raw_query = ''Does this policy cover knee surgery?''\<rparr>"
  by code_simp

lemma enhance_attempt_sample:
  "enhance_attempt sample_caps query =
     Inr \<lparr>intent = ''coverage_check'', entities = [''knee surgery''], keywords_opt = None,
          conditions = None, raw_query = ''Does this policy cover knee surgery?''\<rparr>"
  by (simp add: enhance_attempt_def sample_caps_def reworded_extract reworded_init)

text \<open>
  C9. The claim is that the returned \<open>raw_query\<close> equals the question on both paths. For
  the question "Is knee surgery covered?" and a model output whose \<open>raw_query\<close> is
  "Does this policy cover knee surgery?", \<open>enhance_query\<close> returns the latter.
\<close>

theorem enhance_query_rewords:
  "raw_query (enhance_query sample_caps ''Is knee surgery covered?'') =
     ''Does this policy cover knee surgery?''"
  by (simp add: enhance_query_success[OF enhance_attempt_sample])

section \<open>Properties of the retriever\<close>























lemma retrieve_sample_caps:
  "fst (retrieve_and_rerank sample_caps enhanced_query 35 5 (1 / 2)) =
     Inr [sample_chunk (9 / 10) ''first'', sample_chunk (8 / 10) ''second'']"
  by (simp add: retrieve_and_rerank_def sample_caps_def
        sample_embedding_def hybrid_score_norm_def
        sample_matches_def sample_match_def sample_chunk_def final_result_def Let_def)


section \<open>Properties of one question's run\<close>




lemma process_single_question_returns:
  assumes "agents_init caps = None"
      and "fst (retrieve_and_rerank caps (enhance_query caps q) 35 5 (1 / 2)) = Inr chunks'"
  shows "process_single_question caps q =
           Inr (Success q (enhance_query caps q) chunks' (fst (generate_answer caps q chunks'))
                  (extract_decision_from_answer (py_repr caps) (fst (generate_answer caps q chunks'))))"
  using assms by (simp add: process_single_question_def Let_def)






section \<open>Properties of the orchestrator\<close>

text \<open>
  A result bears the question it was submitted with, and \<open>future.result(timeout=30)\<close>
  never times out: \<open>as_completed\<close> yields a future when it is done.
\<close>

lemma process_single_question_question:
  "process_single_question caps q = Inr r \<Longrightarrow> question r = q"
  by (auto simp: process_single_question_def Let_def split: option.splits sum.splits)

lemma collect_outcome_question:
  "question (collect (t, \<lparr>done_at = d, outcome = process_single_question caps q\<rparr>, q)) = q"
  by (auto simp: collect_def future_result_def process_single_question_question
           split: option.splits sum.splits)

lemma collect_question: "question (collect (t, submit u q, q)) = q"
  by (simp add: submit_def collect_outcome_question)

lemma collect_done:
  "completes_at u = Some t \<Longrightarrow>
   collect (t, submit u q, q) =
     (case process_single_question (unit_caps u) q of
        Inr result \<Rightarrow> result
      | Inl e \<Rightarrow> Failure q (''Processing failed: '' @ str_exn e))"
  by (simp add: collect_def future_result_def submit_def)

lemma those_Some_map: "those xs = Some ys \<Longrightarrow> xs = map Some ys"
proof (induction xs arbitrary: ys)
  case Nil
  then show ?case by simp
next
  case (Cons x xs)
  then show ?case by (auto split: option.splits)
qed

lemma those_map_Some: "those (map Some ys) = Some ys"
  by (induction ys) simp_all

lemma as_completed_done:
  assumes "as_completed fq = Some ys" and "(t, f, q) \<in> set ys"
  shows "done_at f = Some t \<and> (f, q) \<in> set fq"
proof -
  from assms(1) obtain ts where ts: "those (map (\<lambda>(f, q). done_at f) fq) = Some ts"
    and ys: "ys = sort_key fst (zip ts fq)"
    by (auto simp: as_completed_def split: option.splits)
  from ts have m: "map (\<lambda>(f, q). done_at f) fq = map Some ts" by (rule those_Some_map)
  from assms(2) ys have "(t, f, q) \<in> set (zip ts fq)" by simp
  then obtain i where i: "i < length ts" "i < length fq" "ts ! i = t" "fq ! i = (f, q)"
    by (auto simp: set_zip)
  from m i(1,2) have "(\<lambda>(f, q). done_at f) (fq ! i) = Some (ts ! i)"
    by (metis nth_map)
  with i have "done_at f = Some t" by simp
  moreover from i(2,4) have "(f, q) \<in> set fq" by (metis nth_mem)
  ultimately show ?thesis by simp
qed

lemma future_result_done:
  "done_at f = Some t \<Longrightarrow> t \<le> now \<Longrightarrow> future_result now timeout f = outcome f"
  by (simp add: future_result_def)

lemma timeout_never_fires:
  assumes "as_completed fq = Some ys" and "(t, f, q) \<in> set ys"
  shows "future_result t 30 f = outcome f"
  using as_completed_done[OF assms] by (simp add: future_result_done)

text \<open>
  The index of a question in \<open>question_to_index\<close> is its position when the questions are
  pairwise distinct; then, all units completing, the batch returns one result for each
  question, in the order of the questions, whatever the completion times.
\<close>

lemma fold_index_notin:
  "q \<notin> set qs \<Longrightarrow> fold (\<lambda>(i, q) m. m(q \<mapsto> i)) (enumerate k qs) m0 q = m0 q"
  by (induction qs arbitrary: k m0) auto

lemma fold_index_Cons:
  "fold (\<lambda>(i, q) m. m(q \<mapsto> i)) (enumerate k (q # qs)) m0 =
   fold (\<lambda>(i, q) m. m(q \<mapsto> i)) (enumerate (Suc k) qs) (m0(q \<mapsto> k))"
  by simp

lemma fold_index_distinct:
  "distinct qs \<Longrightarrow> i < length qs \<Longrightarrow>
   fold (\<lambda>(i, q) m. m(q \<mapsto> i)) (enumerate k qs) m0 (qs ! i) = Some (k + i)"
proof (induction qs arbitrary: k m0 i)
  case Nil
  then show ?case by simp
next
  case (Cons q qs)
  let ?f = "\<lambda>(i, q) m. m(q \<mapsto> i)"
  show ?case
  proof (cases i)
    case 0
    from Cons.prems have "q \<notin> set qs" by simp
    then have "fold ?f (enumerate (Suc k) qs) (m0(q \<mapsto> k)) q = (m0(q \<mapsto> k)) q"
      by (rule fold_index_notin)
    also have "\<dots> = Some (k + 0)" by simp
    finally have "fold ?f (enumerate (Suc k) qs) (m0(q \<mapsto> k)) q = Some (k + 0)" .
    moreover have "(q # qs) ! i = q" using 0 by simp
    ultimately show ?thesis by (simp only: fold_index_Cons 0)
  next
    case (Suc j)
    with Cons.prems have "distinct qs" "j < length qs" by simp_all
    then have "fold ?f (enumerate (Suc k) qs) (m0(q \<mapsto> k)) (qs ! j) = Some (Suc k + j)"
      by (rule Cons.IH)
    moreover have "(q # qs) ! i = qs ! j" using Suc by simp
    moreover have "Suc k + j = k + i" using Suc by simp
    ultimately show ?thesis by (simp only: fold_index_Cons)
  qed
qed

lemma question_to_index_distinct:
  "distinct questions \<Longrightarrow> i < length questions \<Longrightarrow>
   question_to_index questions (questions ! i) = Some i"
  using fold_index_distinct[of questions i 0 Map.empty] by (simp add: question_to_index_def)

lemma enumerate_map_upt:
  "map f (enumerate 0 xs) = map (\<lambda>i. f (i, xs ! i)) [0..<length xs]"
  by (rule nth_equalityI) (simp_all add: nth_enumerate_eq)

lemma all_done_as_completed:
  assumes "\<forall>i<length fq. done_at (fst (fq ! i)) = Some (T i)"
  shows "as_completed fq = Some (sort_key fst (zip (map T [0..<length fq]) fq))"
proof -
  have "map (\<lambda>(f, q). done_at f) fq = map Some (map T [0..<length fq])"
    using assms by (intro nth_equalityI) (simp_all add: case_prod_unfold)
  then have "those (map (\<lambda>(f, q). done_at f) fq) = Some (map T [0..<length fq])"
    by (simp only: those_map_Some)
  then show ?thesis by (simp add: as_completed_def)
qed

lemma sort_key_unique:
  assumes "set xs = set ys" and "distinct (map f xs)" and "distinct (map f ys)"
      and "sorted (map f ys)"
  shows "sort_key f xs = ys"
proof -
  have d: "distinct xs" "inj_on f (set xs)" using assms(2) by (simp_all add: distinct_map)
  have "distinct (map f (sort_key f xs))"
    using d by (simp add: distinct_map)
  moreover have "inj_on f (set (sort_key f xs) \<union> set ys)"
    using d assms(1) by simp
  moreover have "sorted (map f (sort_key f xs))" by simp
  moreover have "set (sort_key f xs) = set ys" using assms(1) by simp
  ultimately show ?thesis
    using assms(3,4) by (intro map_sorted_distinct_set_unique[of f]) simp_all
qed


lemma process_questions_parallel_distinct:
  assumes d: "distinct questions"
      and c: "\<forall>i<length questions. \<exists>t. completes_at (units i) = Some t"
  shows "\<exists>results. process_questions_parallel questions units = Some results \<and>
           length results = length questions \<and>
           (\<forall>i<length questions.
              results ! i =
                (case process_single_question (unit_caps (units i)) (questions ! i) of
                   Inr r \<Rightarrow> r
                 | Inl e \<Rightarrow> Failure (questions ! i) (''Processing failed: '' @ str_exn e))) \<and>
           map question results = questions"
proof (cases "questions = []")
  case True
  then show ?thesis by (simp add: process_questions_parallel_def)
next
  case False
  define n where "n = length questions"
  define T where "T i = the (completes_at (units i))" for i
  define fq where "fq = map (\<lambda>(i, q). (submit (units i) q, q)) (enumerate 0 questions)"
  define Z where "Z = map (\<lambda>i. (T i, submit (units i) (questions ! i), questions ! i)) [0..<n]"
  define key where "key x = (case question_to_index questions (question x) of
                               Some i \<Rightarrow> i | None \<Rightarrow> length questions)" for x
  have Tc: "completes_at (units i) = Some (T i)" if "i < n" for i
    using c that by (auto simp: T_def n_def)
  have fq: "fq = map (\<lambda>i. (submit (units i) (questions ! i), questions ! i)) [0..<n]"
    unfolding fq_def n_def by (simp add: enumerate_map_upt)
  have lfq: "length fq = n" by (simp add: fq)
  have "\<forall>i<length fq. done_at (fst (fq ! i)) = Some (T i)"
    using Tc by (simp add: fq submit_def)
  from all_done_as_completed[OF this]
  have ac: "as_completed fq = Some (sort_key fst (zip (map T [0..<n]) fq))"
    by (simp only: lfq)
  have Z: "zip (map T [0..<n]) fq = Z"
    by (rule nth_equalityI) (simp_all add: fq Z_def)
  define ys where "ys = sort_key fst Z"
  define R0 where "R0 = map collect Z"
  have R0nth: "R0 ! i = (case process_single_question (unit_caps (units i)) (questions ! i) of
                   Inr r \<Rightarrow> r
                 | Inl e \<Rightarrow> Failure (questions ! i) (''Processing failed: '' @ str_exn e))"
    if "i < n" for i
    using that by (simp add: R0_def Z_def collect_done[OF Tc])
  have lR0: "length R0 = n" by (simp add: R0_def Z_def)
  have qR0: "question (R0 ! i) = questions ! i" if "i < n" for i
    using that by (simp add: R0_def Z_def collect_question)
  have kR0: "key (R0 ! i) = i" if "i < n" for i
    using that d by (simp add: key_def qR0 question_to_index_distinct n_def)
  have keys: "map key R0 = [0..<n]"
    by (rule nth_equalityI) (simp_all add: lR0 kR0)
  have mapq: "map question R0 = questions"
    by (rule nth_equalityI) (simp_all add: lR0 qR0 n_def)
  have dZ: "distinct (map (key \<circ> collect) Z)"
    using keys by (simp add: R0_def)
  then have "distinct Z" "inj_on (key \<circ> collect) (set Z)" by (simp_all add: distinct_map)
  then have "distinct (map (key \<circ> collect) ys)"
    by (simp add: ys_def distinct_map)
  then have dR: "distinct (map key (map collect ys))" by simp
  have sR: "set (map collect ys) = set R0" by (simp add: ys_def R0_def)
  have "sort_key key (map collect ys) = R0"
    using sR dR by (rule sort_key_unique) (simp_all add: keys)
  then have "process_questions_parallel questions units = Some R0"
    using False ac
    by (simp add: process_questions_parallel_def fq_def[symmetric] Z ys_def[symmetric]
          key_def[abs_def] Let_def)
  then show ?thesis using lR0 R0nth mapq by (simp add: n_def)
qed

text \<open>
  For any questions, all units completing: the questions of the results are the
  questions sorted by their index in \<open>question_to_index\<close>, whatever the completion times.
  So there is one result for each question; the order is that of the input unless a
  question occurs twice.
\<close>

lemma insort_key_map:
  "map f (insort_key (\<lambda>x. g (f x)) x xs) = insort_key g (f x) (map f xs)"
  by (induction xs) simp_all

lemma sort_key_map:
  "map f (sort_key (\<lambda>x. g (f x)) xs) = sort_key g (map f xs)"
  by (induction xs) (simp_all add: insort_key_map)

lemma sort_key_mset_inj:
  assumes m: "mset xs = mset ys" and inj: "inj_on f (set ys)"
  shows "sort_key f xs = sort_key f ys"
proof (rule properties_for_sort_key)
  show "mset (sort_key f ys) = mset xs" using m by simp
  show "sorted (map f (sort_key f ys))" by simp
  fix k assume "k \<in> set (sort_key f ys)"
  then have k: "k \<in> set ys" by simp
  have s: "set xs = set ys" using m by (rule mset_eq_setD)
  have "filter (\<lambda>x. f k = f x) zs = filter (HOL.eq k) zs" if "set zs = set ys" for zs
    using that k inj by (intro filter_cong refl) (auto dest: inj_onD)
  then have "filter (\<lambda>x. f k = f x) (sort_key f ys) = filter (HOL.eq k) (sort_key f ys)"
    and "filter (\<lambda>x. f k = f x) xs = filter (HOL.eq k) xs"
    using s by simp_all
  moreover have "filter (HOL.eq k) (sort_key f ys) = filter (HOL.eq k) xs"
    using m by (simp add: replicate_count_mset_eq_filter_eq[symmetric])
  ultimately show "filter (\<lambda>x. f k = f x) (sort_key f ys) = filter (\<lambda>x. f k = f x) xs"
    by simp
qed

lemma fold_index_mem:
  "q \<in> set qs \<Longrightarrow>
   \<exists>i<length qs. fold (\<lambda>(i, q) m. m(q \<mapsto> i)) (enumerate k qs) m0 q = Some (k + i) \<and> qs ! i = q"
proof (induction qs arbitrary: k m0)
  case Nil
  then show ?case by simp
next
  case (Cons a qs)
  let ?f = "\<lambda>(i, q) m. m(q \<mapsto> i)"
  show ?case
  proof (cases "q \<in> set qs")
    case True
    from Cons.IH[OF True, of "Suc k" "m0(a \<mapsto> k)"]
    obtain i where i: "i < length qs"
      "fold ?f (enumerate (Suc k) qs) (m0(a \<mapsto> k)) q = Some (Suc k + i)" "qs ! i = q"
      by blast
    have "Suc i < length (a # qs)" using i(1) by simp
    moreover have "fold ?f (enumerate k (a # qs)) m0 q = Some (k + Suc i)"
      using i(2) by (simp only: fold_index_Cons) simp
    moreover have "(a # qs) ! Suc i = q" using i(3) by simp
    ultimately show ?thesis by blast
  next
    case False
    with Cons.prems have qa: "q = a" by simp
    from False have "fold ?f (enumerate (Suc k) qs) (m0(a \<mapsto> k)) q = (m0(a \<mapsto> k)) q"
      by (rule fold_index_notin)
    then have "fold ?f (enumerate k (a # qs)) m0 q = Some (k + 0)"
      using qa by (simp only: fold_index_Cons) simp
    moreover have "(a # qs) ! 0 = q" using qa by simp
    ultimately show ?thesis by blast
  qed
qed

lemma question_to_index_mem:
  "q \<in> set questions \<Longrightarrow>
   \<exists>i<length questions. question_to_index questions q = Some i \<and> questions ! i = q"
  using fold_index_mem[of q questions 0 Map.empty] by (simp add: question_to_index_def)

lemma question_to_index_inj:
  "inj_on (\<lambda>q. case question_to_index questions q of Some i \<Rightarrow> i | None \<Rightarrow> length questions)
     (set questions)"
proof (rule inj_onI)
  fix p q
  assume p: "p \<in> set questions" and q: "q \<in> set questions"
    and e: "(case question_to_index questions p of Some i \<Rightarrow> i | None \<Rightarrow> length questions) =
            (case question_to_index questions q of Some i \<Rightarrow> i | None \<Rightarrow> length questions)"
  from question_to_index_mem[OF p] obtain i where
    i: "question_to_index questions p = Some i" "questions ! i = p" by blast
  from question_to_index_mem[OF q] obtain j where
    j: "question_to_index questions q = Some j" "questions ! j = q" by blast
  from e i(1) j(1) have "i = j" by simp
  with i(2) j(2) show "p = q" by simp
qed

lemma process_questions_parallel_questions:
  assumes c: "\<forall>i<length questions. \<exists>t. completes_at (units i) = Some t"
  shows "map_option (map question) (process_questions_parallel questions units) =
           Some (sort_key
                   (\<lambda>q. case question_to_index questions q of
                           Some i \<Rightarrow> i | None \<Rightarrow> length questions)
                   questions)"
proof (cases "questions = []")
  case True
  then show ?thesis by (simp add: process_questions_parallel_def)
next
  case False
  define n where "n = length questions"
  define T where "T i = the (completes_at (units i))" for i
  define fq where "fq = map (\<lambda>(i, q). (submit (units i) q, q)) (enumerate 0 questions)"
  define Z where "Z = map (\<lambda>i. (T i, submit (units i) (questions ! i), questions ! i)) [0..<n]"
  define idx where "idx q = (case question_to_index questions q of
                               Some i \<Rightarrow> i | None \<Rightarrow> length questions)" for q
  have Tc: "completes_at (units i) = Some (T i)" if "i < n" for i
    using c that by (auto simp: T_def n_def)
  have fq: "fq = map (\<lambda>i. (submit (units i) (questions ! i), questions ! i)) [0..<n]"
    unfolding fq_def n_def by (simp add: enumerate_map_upt)
  have lfq: "length fq = n" by (simp add: fq)
  have "\<forall>i<length fq. done_at (fst (fq ! i)) = Some (T i)"
    using Tc by (simp add: fq submit_def)
  from all_done_as_completed[OF this]
  have ac: "as_completed fq = Some (sort_key fst (zip (map T [0..<n]) fq))"
    by (simp only: lfq)
  have Z: "zip (map T [0..<n]) fq = Z"
    by (rule nth_equalityI) (simp_all add: fq Z_def)
  define ys where "ys = sort_key fst Z"
  have qZ: "question (collect y) = snd (snd y)" if "y \<in> set Z" for y
    using that by (auto simp: Z_def collect_question)
  have "map question (map collect ys) = map (\<lambda>y. snd (snd y)) ys"
    using qZ by (simp add: ys_def)
  moreover have "mset (map (\<lambda>y. snd (snd y)) ys) = mset questions"
  proof -
    have "mset (map (\<lambda>y. snd (snd y)) ys) = mset (map (\<lambda>y. snd (snd y)) Z)"
      by (simp add: ys_def)
    also have "map (\<lambda>y. snd (snd y)) Z = questions"
      by (rule nth_equalityI) (simp_all add: Z_def n_def)
    finally show ?thesis .
  qed
  ultimately have m: "mset (map question (map collect ys)) = mset questions" by (simp only:)
  have "map question (sort_key (\<lambda>x. idx (question x)) (map collect ys)) =
          sort_key idx (map question (map collect ys))"
    by (rule sort_key_map)
  also have "\<dots> = sort_key idx questions"
    using m question_to_index_inj[of questions]
    by (intro sort_key_mset_inj) (simp_all add: idx_def[abs_def])
  finally have "map question (sort_key (\<lambda>x. idx (question x)) (map collect ys)) =
                  sort_key idx questions" .
  then show ?thesis
    using False ac
    by (simp add: process_questions_parallel_def fq_def[symmetric] Z ys_def[symmetric]
          idx_def[abs_def] Let_def)
qed

lemma process_questions_parallel_length:
  assumes "\<forall>i<length questions. \<exists>t. completes_at (units i) = Some t"
  shows "\<exists>results. process_questions_parallel questions units = Some results \<and>
           length results = length questions"
proof -
  from process_questions_parallel_questions[OF assms]
  obtain results where r: "process_questions_parallel questions units = Some results"
    and "map question results =
           sort_key (\<lambda>q. case question_to_index questions q of
                           Some i \<Rightarrow> i | None \<Rightarrow> length questions) questions"
    by auto
  then have "length (map question results) = length questions" by simp
  with r show ?thesis by simp
qed

lemma question_to_index_aba:
  "question_to_index [''a'', ''b'', ''a''] ''a'' = Some 2"
  "question_to_index [''a'', ''b'', ''a''] ''b'' = Some 1"
  by (simp_all add: question_to_index_def enumerate_eq_zip)

lemma duplicate_questions_any_order:
  assumes "\<forall>i<3. \<exists>t. completes_at (units i) = Some t"
  shows "map_option (map question) (process_questions_parallel [''a'', ''b'', ''a''] units) =
           Some [''b'', ''a'', ''a'']"
proof -
  have "\<forall>i<length [''a'', ''b'', ''a'']. \<exists>t. completes_at (units i) = Some t"
    using assms by simp
  from process_questions_parallel_questions[OF this] show ?thesis
    by (simp add: question_to_index_aba)
qed

text \<open>
  C1. The claim is that the result at position \<open>i\<close> bears the \<open>i\<close>-th question, for every
  non-empty list of questions. For the questions \<open>a, b, a\<close> the index of \<open>a\<close> is 2 and the
  results come back in the order \<open>b, a, a\<close>: a question asked twice moves the results.
\<close>

theorem duplicate_questions_reordered:
  "map_option (map question) (process_questions_parallel [''a'', ''b'', ''a''] swapped_units) =
     Some [''b'', ''a'', ''a''] \<and>
   map_option (map question) (process_questions_parallel [''a'', ''b'', ''a''] slow_units) =
     Some [''b'', ''a'', ''a'']"
  by (simp add: duplicate_questions_any_order swapped_units_def slow_units_def)

text \<open>
  A unit that never completes keeps the batch from returning; a unit that completes,
  however late, yields its own result (\<open>process_questions_parallel_distinct\<close> above holds
  for all completion times).
\<close>

lemma those_None: "None \<in> set xs \<Longrightarrow> those xs = None"
  by (induction xs) (auto split: option.splits)

lemma hanging_never_returns:
  assumes "i < length questions" and "completes_at (units i) = None"
  shows "process_questions_parallel questions units = None"
proof -
  define fq where "fq = map (\<lambda>(i, q). (submit (units i) q, q)) (enumerate 0 questions)"
  have ne: "questions \<noteq> []" using assms(1) by auto
  have l: "i < length fq" using assms(1) by (simp add: fq_def)
  have "fq ! i = (submit (units i) (questions ! i), questions ! i)"
    using assms(1) by (simp add: fq_def nth_enumerate_eq)
  then have "done_at (fst (fq ! i)) = None"
    using assms(2) by (simp add: submit_def)
  then have "(\<lambda>(f, q). done_at f) (fq ! i) = None"
    by (simp add: case_prod_unfold)
  moreover have "(\<lambda>(f, q). done_at f) (fq ! i) \<in> set (map (\<lambda>(f, q). done_at f) fq)"
    using l by simp
  ultimately have "None \<in> set (map (\<lambda>(f, q). done_at f) fq)"
    by (simp only:)
  then have "those (map (\<lambda>(f, q). done_at f) fq) = None" by (rule those_None)
  then have "as_completed fq = None" by (simp add: as_completed_def)
  then show ?thesis using ne by (simp add: process_questions_parallel_def fq_def[symmetric] Let_def)
qed

lemma sample_status:
  "\<exists>r. process_single_question sample_caps q = Inr r \<and> status r = ''success''"
proof -
  have "agents_init sample_caps = None" by (simp add: sample_caps_def)
  from process_single_question_returns[OF this retrieve_sample_caps]
  show ?thesis by simp
qed

lemma collect_sample_status:
  "status (collect (t, \<lparr>done_at = Some t, outcome = process_single_question sample_caps q\<rparr>, q)) =
     ''success''"
proof -
  obtain r where "process_single_question sample_caps q = Inr r" "status r = ''success''"
    using sample_status by blast
  then show ?thesis by (simp add: collect_def future_result_def)
qed

lemma question_to_index_q1q2:
  "question_to_index [''q1'', ''q2''] ''q1'' = Some 0"
  "question_to_index [''q1'', ''q2''] ''q2'' = Some 1"
  by (simp_all add: question_to_index_def enumerate_eq_zip)

text \<open>
  C2. The claim is that a unit not done within 30 time units yields an error result
  "Processing failed: ...". A unit that completes at time 100 yields its own result, of
  status "success"; with a unit that never completes the batch never returns.
\<close>

theorem slow_unit_not_timed_out:
  "map_option (map status) (process_questions_parallel [''q1'', ''q2''] slow_units) =
     Some [''success'', ''success''] \<and>
   map_option (map question) (process_questions_parallel [''q1'', ''q2''] slow_units) =
     Some [''q1'', ''q2''] \<and>
   process_questions_parallel [''q1'', ''q2''] hanging_units = None"
proof (intro conjI)
  show "map_option (map status) (process_questions_parallel [''q1'', ''q2''] slow_units) =
     Some [''success'', ''success'']"
    by (simp add: process_questions_parallel_def as_completed_def slow_units_def submit_def
        collect_outcome_question collect_sample_status question_to_index_q1q2 Let_def)
  show "map_option (map question) (process_questions_parallel [''q1'', ''q2''] slow_units) =
     Some [''q1'', ''q2'']"
    by (simp add: process_questions_parallel_def as_completed_def slow_units_def submit_def
        collect_outcome_question question_to_index_q1q2 Let_def)
  show "process_questions_parallel [''q1'', ''q2''] hanging_units = None"
    by (simp add: process_questions_parallel_def as_completed_def hanging_units_def submit_def Let_def)
qed

end
